theory Spec2Isabelle
  imports Main "HOL-Library.Sublist"
begin

section \<open>Data model of the code review agent (agent.ts)\<close>

subsection \<open>The agent state: interface CodeReviewState\<close>

datatype strictness = lenient | moderate | strict

record preferences =
  language :: string
  styleGuide :: string
  strictness :: strictness
  focusAreas :: "string list"

text \<open>An element of \<open>reviewHistory\<close>. The source declares \<open>accepted: boolean\<close>.\<close>

record review_entry =
  review_id :: string
  code :: string
  review :: string
  timestamp :: int
  accepted :: bool

record pattern_summary =
  commonIssues :: "string list"
  ignoredRules :: "string list"
  customRules :: "string list"

record CodeReviewState =
  userId :: string
  preferences :: preferences
  reviewHistory :: "review_entry list"
  patterns :: pattern_summary

definition initialState :: CodeReviewState where
  "initialState =
     \<lparr>userId = [],
      preferences = \<lparr>language = ''python'', styleGuide = ''PEP8'', strictness = moderate,
                     focusAreas = [''readability'', ''performance'', ''security'']\<rparr>,
      reviewHistory = [],
      patterns = \<lparr>commonIssues = [], ignoredRules = [], customRules = []\<rparr>\<rparr>"

subsection \<open>The SQLite tables created by onStart\<close>

text \<open>
  A row of \<open>review_patterns\<close> and a row of \<open>code_snippets\<close>. Nullable columns are options.
  No statement of the source deletes a row, so the AUTOINCREMENT key of a new row is the
  number of rows plus one. Times (\<open>Date.now()\<close>, \<open>CURRENT_TIMESTAMP\<close>) are integers
  supplied by the environment of a call.
\<close>

record review_pattern =
  pattern_id :: nat
  pattern_type :: string
  pattern :: string
  frequency :: int
  last_seen :: int
  user_feedback :: "string option"

record code_snippet =
  snippet_id :: nat
  snippet_code :: string
  snippet_language :: string
  snippet_review :: string
  issues_found :: nat
  snippet_timestamp :: int
  helpful :: "bool option"

record storage =
  review_patterns :: "review_pattern list"
  code_snippets :: "code_snippet list"

text \<open>
  The uniqueness constraints that \<open>CREATE TABLE review_patterns\<close> declares, each a list of
  columns: the primary key \<open>id\<close> and nothing else. The column \<open>pattern\<close> is
  \<open>TEXT NOT NULL\<close>, without \<open>UNIQUE\<close>.
\<close>

definition review_patterns_unique :: "string list list" where
  "review_patterns_unique = [[''id'']]"

text \<open>On fresh storage \<open>onStart\<close> creates both tables, empty.\<close>

definition onStart :: storage where
  "onStart = \<lparr>review_patterns = [], code_snippets = []\<rparr>"

text \<open>An agent instance: the state snapshot and its SQL storage.\<close>

record agent =
  state :: CodeReviewState
  sql :: storage

definition initial_agent :: agent where
  "initial_agent = \<lparr>state = initialState, sql = onStart\<rparr>"

subsection \<open>What a call reads from outside the agent\<close>

text \<open>
  \<open>ai_run\<close> is \<open>env.AI.run\<close> followed by \<open>response.response\<close>: the generated text, or
  \<open>None\<close> when the call throws or the response carries no text (then \<open>countIssues\<close>
  throws while the arguments of the first statement are evaluated, before anything is
  written). \<open>randomUUID\<close> is \<open>crypto.randomUUID()\<close>; the three
  \<open>now_\<close> fields are the values of \<open>Date.now()\<close> in the snippet insert, in the history
  entry and in the returned object; \<open>current_timestamp\<close> is SQLite's
  \<open>CURRENT_TIMESTAMP\<close>.
\<close>

record review_env =
  ai_run :: "string \<Rightarrow> string option"
  randomUUID :: string
  now_snippet :: int
  now_history :: int
  now_result :: int
  current_timestamp :: int

datatype sql_error = NoMatchingConstraint

datatype review_result =
    ReviewSuccess string string int
  | ReviewFailure string int

fun success :: "review_result \<Rightarrow> bool" where
  "success (ReviewSuccess r l t) = True"
| "success (ReviewFailure e t) = False"

section \<open>Operations\<close>

subsection \<open>countIssues: the matches of /issue|problem|error|warning|concern/gi\<close>

definition ascii_lower :: "char \<Rightarrow> char" where
  "ascii_lower c =
     (let n = (of_char c :: nat) in if 65 \<le> n \<and> n \<le> 90 then char_of (n + 32) else c)"

definition issue_keywords :: "string list" where
  "issue_keywords = [''issue'', ''problem'', ''error'', ''warning'', ''concern'']"

text \<open>A keyword matches at the head of the text, ignoring the case of ASCII letters.\<close>

definition matches_at :: "string \<Rightarrow> string \<Rightarrow> bool" where
  "matches_at kw s = (map ascii_lower (take (length kw) s) = kw)"

text \<open>
  A global match scans from the left: at each position the alternatives are tried in
  order; after a match the scan resumes behind the matched text, otherwise one character
  further on.
\<close>

function countIssues :: "string \<Rightarrow> nat" where
  "countIssues [] = 0"
| "countIssues (c # cs) =
     (case find (\<lambda>kw. matches_at kw (c # cs)) issue_keywords of
        Some kw \<Rightarrow> Suc (countIssues (drop (length kw) (c # cs)))
      | None \<Rightarrow> countIssues cs)"
  by pat_completeness auto
termination
proof (relation "measure length")
  show "wf (measure length)" by simp
next
  fix c :: char and cs :: string and kw :: string
  assume "find (\<lambda>kw. matches_at kw (c # cs)) issue_keywords = Some kw"
  then have "kw \<in> set issue_keywords"
    by (auto simp: find_Some_iff)
  then have "0 < length kw"
    by (auto simp: issue_keywords_def)
  then show "(drop (length kw) (c # cs), c # cs) \<in> measure length"
    by simp
next
  fix c :: char and cs :: string
  show "(cs, c # cs) \<in> measure length" by simp
qed

declare countIssues.simps [simp del]

subsection \<open>The matches of /Issue:([^.]+)/g\<close>

text \<open>
  A match is the literal \<open>Issue:\<close> followed by the longest non-empty run of characters
  other than the full stop. Where \<open>Issue:\<close> is followed by a full stop or by the end of
  the text there is no match at that position.
\<close>

function issuePatterns :: "string \<Rightarrow> string list" where
  "issuePatterns [] = []"
| "issuePatterns (c # cs) =
     (if prefix ''Issue:'' (c # cs) \<and> takeWhile (\<lambda>x. x \<noteq> CHR ''.'') (drop 6 (c # cs)) \<noteq> []
      then (''Issue:'' @ takeWhile (\<lambda>x. x \<noteq> CHR ''.'') (drop 6 (c # cs)))
             # issuePatterns (dropWhile (\<lambda>x. x \<noteq> CHR ''.'') (drop 6 (c # cs)))
      else issuePatterns cs)"
  by pat_completeness auto
termination
proof (relation "measure length")
  show "wf (measure length)" by simp
next
  fix c :: char and cs :: string
  have "length (dropWhile (\<lambda>x. x \<noteq> CHR ''.'') (drop 6 (c # cs))) \<le> length (drop 6 (c # cs))"
    by (rule length_dropWhile_le)
  then show "(dropWhile (\<lambda>x. x \<noteq> CHR ''.'') (drop 6 (c # cs)), c # cs) \<in> measure length"
    by simp
next
  fix c :: char and cs :: string
  show "(cs, c # cs) \<in> measure length" by simp
qed

declare issuePatterns.simps [simp del]

subsection \<open>buildReviewPrompt\<close>

fun array_join :: "string \<Rightarrow> string list \<Rightarrow> string" where
  "array_join sep [] = []"
| "array_join sep [x] = x"
| "array_join sep (x # y # ys) = x @ sep @ array_join sep (y # ys)"

fun strictness_text :: "strictness \<Rightarrow> string" where
  "strictness_text lenient = ''lenient''"
| "strictness_text moderate = ''moderate''"
| "strictness_text strict = ''strict''"

definition nl :: string where
  "nl = [CHR 0x0A]"

text \<open>The optional clause of the template: empty when no pattern row was selected.\<close>

definition common_issues_clause :: "review_pattern list \<Rightarrow> string" where
  "common_issues_clause ps =
     (if length ps > 0
      then nl @ ''Common issues to check: '' @ array_join '', '' (map pattern ps)
      else [])"

definition buildReviewPrompt :: "CodeReviewState \<Rightarrow> string \<Rightarrow> string \<Rightarrow> review_pattern list \<Rightarrow> string" where
  "buildReviewPrompt st src lang ps =
     ''You are an expert '' @ lang @ '' code reviewer.'' @ nl @
     ''Review the following code with '' @ strictness_text (strictness (preferences st)) @ '' strictness.'' @ nl @
     ''Focus on: '' @ array_join '', '' (focusAreas (preferences st)) @ ''.'' @ nl @
     ''Style guide: '' @ styleGuide (preferences st) @ ''.'' @ nl @
     nl @
     common_issues_clause ps @ nl @
     nl @
     ''Code to review:'' @ nl @
     ''```'' @ lang @ nl @
     src @ nl @
     ''```'' @ nl @
     nl @
     ''Provide a structured review with:'' @ nl @
     ''1. Issues found (if any)'' @ nl @
     ''2. Suggestions for improvement'' @ nl @
     ''3. Good practices observed'' @ nl @
     ''4. Security concerns (if any)'' @ nl @
     nl @
     ''Be constructive and educational.''"

subsection \<open>SQL statements\<close>

text \<open>
  \<open>SELECT ... FROM review_patterns WHERE pattern_type = t ORDER BY frequency DESC LIMIT 5\<close>.
  Rows of equal frequency keep their insertion order (the sort is stable). The rows are
  returned whole; the callers read \<open>pattern\<close> (and \<open>frequency\<close>) only.
\<close>

definition select_top5 :: "string \<Rightarrow> review_pattern list \<Rightarrow> review_pattern list" where
  "select_top5 t rows =
     take 5 (sort_key (\<lambda>r. - frequency r) (filter (\<lambda>r. pattern_type r = t) rows))"

text \<open>
  A plain \<open>INSERT INTO review_patterns\<close>: the new row gets the next key, and the column
  defaults \<open>frequency = 1\<close> and \<open>last_seen = CURRENT_TIMESTAMP\<close>. With the primary key as
  the only uniqueness constraint it cannot fail.
\<close>

definition insert_pattern :: "int \<Rightarrow> string \<Rightarrow> string \<Rightarrow> string option \<Rightarrow> review_pattern list \<Rightarrow> review_pattern list" where
  "insert_pattern now t p fb rows =
     rows @ [\<lparr>pattern_id = Suc (length rows), pattern_type = t, pattern = p, frequency = 1,
              last_seen = now, user_feedback = fb\<rparr>]"

text \<open>
  \<open>INSERT INTO review_patterns (pattern_type, pattern) VALUES ('detected_issue', p)
  ON CONFLICT(pattern) DO UPDATE SET frequency = frequency + 1, last_seen = CURRENT_TIMESTAMP\<close>
  on a table whose declared uniqueness constraints are \<open>uniq\<close>. SQLite rejects the
  statement when the conflict target is not the column list of a PRIMARY KEY or UNIQUE
  constraint of the table ("ON CONFLICT clause does not match any PRIMARY KEY or UNIQUE
  constraint"), and the \<open>sql\<close> tag of the agent rethrows the error. With the constraint,
  the row holding the same \<open>pattern\<close> is updated, or a new row inserted when there is none.
\<close>

definition insert_on_conflict_pattern :: "string list list \<Rightarrow> int \<Rightarrow> string \<Rightarrow> review_pattern list \<Rightarrow> sql_error + review_pattern list" where
  "insert_on_conflict_pattern uniq now p rows =
     (if [''pattern''] \<notin> set uniq then Inl NoMatchingConstraint
      else if \<exists>r \<in> set rows. pattern r = p
      then Inr (map (\<lambda>r. if pattern r = p
                          then r\<lparr>frequency := frequency r + 1, last_seen := now\<rparr> else r) rows)
      else Inr (insert_pattern now ''detected_issue'' p None rows))"

subsection \<open>storeReview\<close>

text \<open>\<open>history.unshift(entry)\<close>, then one \<open>history.pop()\<close> when the length exceeds 10.\<close>

definition push_history :: "review_entry \<Rightarrow> review_entry list \<Rightarrow> review_entry list" where
  "push_history e h = (if length (e # h) > 10 then butlast (e # h) else e # h)"

definition storeReview :: "review_env \<Rightarrow> string \<Rightarrow> string \<Rightarrow> string \<Rightarrow> agent \<Rightarrow> agent" where
  "storeReview env src txt lang a =
     \<lparr>state = (state a)\<lparr>reviewHistory :=
          push_history \<lparr>review_id = randomUUID env, code = src, review = txt,
                        timestamp = now_history env, accepted = False\<rparr>
            (reviewHistory (state a))\<rparr>,
      sql = (sql a)\<lparr>code_snippets := code_snippets (sql a) @
          [\<lparr>snippet_id = Suc (length (code_snippets (sql a))), snippet_code = src,
            snippet_language = lang, snippet_review = txt, issues_found = countIssues txt,
            snippet_timestamp = now_snippet env, helpful = None\<rparr>]\<rparr>\<rparr>"

subsection \<open>learnFromReview\<close>

text \<open>
  The loop over the matches. A statement that throws ends the loop; the rows written by
  the statements before it stay.
\<close>

fun upsert_all :: "string list list \<Rightarrow> int \<Rightarrow> string list \<Rightarrow> review_pattern list \<Rightarrow> sql_error option \<times> review_pattern list" where
  "upsert_all uniq now [] rows = (None, rows)"
| "upsert_all uniq now (p # ps) rows =
     (case insert_on_conflict_pattern uniq now p rows of
        Inl e \<Rightarrow> (Some e, rows)
      | Inr rows' \<Rightarrow> upsert_all uniq now ps rows')"

definition learnFromReview :: "int \<Rightarrow> string \<Rightarrow> agent \<Rightarrow> sql_error option \<times> agent" where
  "learnFromReview now txt a =
     (case upsert_all review_patterns_unique now (issuePatterns txt) (review_patterns (sql a)) of
        (e, rows) \<Rightarrow> (e, a\<lparr>sql := (sql a)\<lparr>review_patterns := rows\<rparr>\<rparr>))"

subsection \<open>reviewCode\<close>

text \<open>\<open>language || this.state.preferences.language\<close>: a missing or empty argument is falsy.\<close>

definition userLanguage :: "string option \<Rightarrow> agent \<Rightarrow> string" where
  "userLanguage lang a =
     (case lang of
        None \<Rightarrow> language (preferences (state a))
      | Some l \<Rightarrow> if l = [] then language (preferences (state a)) else l)"

text \<open>The rows the handler selects for the prompt, and the prompt it sends.\<close>

definition recentPatterns :: "agent \<Rightarrow> review_pattern list" where
  "recentPatterns a = select_top5 ''common_issue'' (review_patterns (sql a))"

definition review_prompt :: "string \<Rightarrow> string option \<Rightarrow> agent \<Rightarrow> string" where
  "review_prompt src lang a =
     buildReviewPrompt (state a) src (userLanguage lang a) (recentPatterns a)"

text \<open>
  The \<open>try\<close> block holds the inference call, \<open>storeReview\<close> and \<open>learnFromReview\<close>; an
  exception of any of them is caught and answered with the failure object.
\<close>

definition reviewCode :: "review_env \<Rightarrow> string \<Rightarrow> string option \<Rightarrow> agent \<Rightarrow> review_result \<times> agent" where
  "reviewCode env src lang a =
     (case ai_run env (review_prompt src lang a) of
        None \<Rightarrow> (ReviewFailure ''Failed to generate review'' (now_result env), a)
      | Some txt \<Rightarrow>
          (case learnFromReview (current_timestamp env) txt
                  (storeReview env src txt (userLanguage lang a) a) of
             (Some e, a') \<Rightarrow> (ReviewFailure ''Failed to generate review'' (now_result env), a')
           | (None, a') \<Rightarrow> (ReviewSuccess txt (userLanguage lang a) (now_result env), a')))"

subsection \<open>updatePreferences\<close>

text \<open>
  \<open>Partial<preferences>\<close>: each field present or absent. The spread
  \<open>{...this.state.preferences, ...preferences}\<close> takes the fields that are present.
\<close>

record partial_preferences =
  new_language :: "string option"
  new_styleGuide :: "string option"
  new_strictness :: "strictness option"
  new_focusAreas :: "string list option"

definition merge_preferences :: "preferences \<Rightarrow> partial_preferences \<Rightarrow> preferences" where
  "merge_preferences p q =
     \<lparr>language = (case new_language q of None \<Rightarrow> language p | Some v \<Rightarrow> v),
      styleGuide = (case new_styleGuide q of None \<Rightarrow> styleGuide p | Some v \<Rightarrow> v),
      strictness = (case new_strictness q of None \<Rightarrow> strictness p | Some v \<Rightarrow> v),
      focusAreas = (case new_focusAreas q of None \<Rightarrow> focusAreas p | Some v \<Rightarrow> v)\<rparr>"

text \<open>Returns \<open>{ success: true, preferences: this.state.preferences }\<close> and the new agent.\<close>

definition updatePreferences :: "partial_preferences \<Rightarrow> agent \<Rightarrow> (bool \<times> preferences) \<times> agent" where
  "updatePreferences q a =
     (let a' = a\<lparr>state := (state a)\<lparr>preferences := merge_preferences (preferences (state a)) q\<rparr>\<rparr>
      in ((True, preferences (state a')), a'))"

subsection \<open>provideFeedback\<close>

fun findIndex :: "('a \<Rightarrow> bool) \<Rightarrow> 'a list \<Rightarrow> nat option" where
  "findIndex P [] = None"
| "findIndex P (x # xs) =
     (if P x then Some 0 else map_option Suc (findIndex P xs))"

text \<open>
  \<open>comments\<close> is optional; \<open>!helpful && comments\<close> holds for a present, non-empty text.
  The call returns \<open>{ success: true }\<close> on every path.
\<close>

definition provideFeedback :: "int \<Rightarrow> string \<Rightarrow> bool \<Rightarrow> string option \<Rightarrow> agent \<Rightarrow> bool \<times> agent" where
  "provideFeedback now reviewId helpfulness comments a =
     (case findIndex (\<lambda>r. review_id r = reviewId) (reviewHistory (state a)) of
        None \<Rightarrow> (True, a)
      | Some i \<Rightarrow>
          (let history = (reviewHistory (state a))
                 [i := (reviewHistory (state a) ! i)\<lparr>accepted := helpfulness\<rparr>];
               a1 = a\<lparr>state := (state a)\<lparr>reviewHistory := history\<rparr>\<rparr>
           in if \<not> helpfulness \<and> comments \<noteq> None \<and> comments \<noteq> Some []
              then (True, a1\<lparr>sql := (sql a1)\<lparr>review_patterns :=
                      insert_pattern now ''user_preference'' (the comments) (Some ''negative'')
                        (review_patterns (sql a1))\<rparr>\<rparr>)
              else (True, a1)))"

subsection \<open>getStats\<close>

text \<open>
  \<open>totalReviews\<close> is \<open>COUNT(*)\<close> of \<open>code_snippets\<close>; \<open>commonIssues\<close> are the five most
  frequent rows of type \<open>detected_issue\<close>; \<open>recentReviews\<close> is the length of the history.
\<close>

record stats =
  totalReviews :: nat
  commonIssues_stats :: "review_pattern list"
  preferences_stats :: preferences
  recentReviews :: nat

definition getStats :: "agent \<Rightarrow> stats" where
  "getStats a =
     \<lparr>totalReviews = length (code_snippets (sql a)),
      commonIssues_stats = select_top5 ''detected_issue'' (review_patterns (sql a)),
      preferences_stats = preferences (state a),
      recentReviews = length (reviewHistory (state a))\<rparr>"

section \<open>Sequences of calls and sample values\<close>

fun review_text :: "review_result \<Rightarrow> string" where
  "review_text (ReviewSuccess r l t) = r"
| "review_text (ReviewFailure e t) = []"

text \<open>A sequence of \<open>reviewCode\<close> calls, each with its environment, run one after the other.\<close>

fun run_reviews :: "(review_env \<times> string \<times> string option) list \<Rightarrow> agent \<Rightarrow> review_result list \<times> agent" where
  "run_reviews [] a = ([], a)"
| "run_reviews ((env, src, lang) # calls) a =
     (case reviewCode env src lang a of
        (r, a') \<Rightarrow> (case run_reviews calls a' of (rs, a'') \<Rightarrow> (r # rs, a'')))"

text \<open>The history entry that a call with result \<open>res\<close> creates.\<close>

fun history_entry :: "review_env \<times> string \<times> string option \<Rightarrow> review_result \<Rightarrow> review_entry" where
  "history_entry (env, src, lang) res =
     \<lparr>review_id = randomUUID env, code = src, review = review_text res,
      timestamp = now_history env, accepted = False\<rparr>"

definition sample_env :: "string \<Rightarrow> string \<Rightarrow> review_env" where
  "sample_env u t =
     \<lparr>ai_run = (\<lambda>p. Some t), randomUUID = u, now_snippet = 100, now_history = 101,
      now_result = 102, current_timestamp = 103\<rparr>"

text \<open>The agent after one review of \<open>def f(): pass\<close> answered with \<open>Looks good\<close>.\<close>

definition sample_agent :: agent where
  "sample_agent =
     \<lparr>state = initialState\<lparr>reviewHistory :=
        [\<lparr>review_id = ''id-1'', code = ''def f(): pass'', review = ''Looks good'',
          timestamp = 101, accepted = False\<rparr>]\<rparr>,
      sql = \<lparr>review_patterns = [],
             code_snippets = [\<lparr>snippet_id = 1, snippet_code = ''def f(): pass'',
               snippet_language = ''python'', snippet_review = ''Looks good'', issues_found = 0,
               snippet_timestamp = 100, helpful = None\<rparr>]\<rparr>\<rparr>"

definition sample_calls :: "(review_env \<times> string \<times> string option) list" where
  "sample_calls =
     map (\<lambda>u. (sample_env u ''Looks good'', ''def f(): pass'', None))
       [''id-1'', ''id-2'', ''id-3'', ''id-4'', ''id-5'', ''id-6'', ''id-7'', ''id-8'',
        ''id-9'', ''id-10'', ''id-11'']"

definition only_strict :: partial_preferences where
  "only_strict = \<lparr>new_language = None, new_styleGuide = None, new_strictness = Some strict,
                  new_focusAreas = None\<rparr>"


definition two_issues :: string where
  "two_issues = ''Issue: missing docstring. Issue: no return type annotation.''"

section \<open>The count the specification describes\<close>

text \<open>
  The number of case-insensitive occurrences of a keyword in a text: the positions at
  which it matches; and the sum over the five keywords.
\<close>

fun occurrences_of :: "string \<Rightarrow> string \<Rightarrow> nat" where
  "occurrences_of kw [] = 0"
| "occurrences_of kw (c # cs) = (if matches_at kw (c # cs) then 1 else 0) + occurrences_of kw cs"

definition keyword_occurrences :: "string \<Rightarrow> nat" where
  "keyword_occurrences s = sum_list (map (\<lambda>kw. occurrences_of kw s) issue_keywords)"

text \<open>The number of keywords that match at the head of a text.\<close>

definition hits :: "string \<Rightarrow> nat" where
  "hits s = length (filter (\<lambda>kw. matches_at kw s) issue_keywords)"

definition two_findings :: string where
  "two_findings = ''Problem: unused import. Security concern.''"

section \<open>Auxiliary facts\<close>

lemma issuePatterns_Looks_good: "issuePatterns ''Looks good'' = []"
  by code_simp

lemma countIssues_Looks_good: "countIssues ''Looks good'' = 0"
  by code_simp

lemma findIndex_None_iff: "findIndex P xs = None \<longleftrightarrow> (\<forall>x \<in> set xs. \<not> P x)"
  by (induction xs) auto

lemma findIndex_Some_lt: "findIndex P xs = Some i \<Longrightarrow> i < length xs \<and> P (xs ! i)"
  by (induction xs arbitrary: i) (auto split: if_splits)

lemma learnFromReview_state: "state (snd (learnFromReview now t a)) = state a"
  by (simp add: learnFromReview_def split: prod.splits)

lemma learnFromReview_snippets:
  "code_snippets (sql (snd (learnFromReview now t a))) = code_snippets (sql a)"
  by (simp add: learnFromReview_def split: prod.splits)

lemma learnFromReview_no_match:
  "issuePatterns t = [] \<Longrightarrow> learnFromReview now t a = (None, a)"
  by (simp add: learnFromReview_def)

lemma push_history_eq: "push_history e h = e # (if 10 \<le> length h then butlast h else h)"
  by (simp add: push_history_def)

lemma push_history_take:
  assumes "length h \<le> 10"
  shows "push_history e h = take 10 (e # h)"
proof (cases "length h = 10")
  case True
  then show ?thesis by (simp add: push_history_def butlast_conv_take)
next
  case False
  then show ?thesis using assms by (simp add: push_history_def)
qed

lemma storeReview_history:
  "reviewHistory (state (storeReview env src t l a)) =
     push_history \<lparr>review_id = randomUUID env, code = src, review = t,
                    timestamp = now_history env, accepted = False\<rparr> (reviewHistory (state a))"
  by (simp add: storeReview_def)

lemma reviewCode_inference_failed:
  "ai_run env (review_prompt src lang a) = None \<Longrightarrow>
   reviewCode env src lang a = (ReviewFailure ''Failed to generate review'' (now_result env), a)"
  by (simp add: reviewCode_def)

lemma reviewCode_history_generated:
  assumes "ai_run env (review_prompt src lang a) = Some t"
  shows "reviewHistory (state (snd (reviewCode env src lang a))) =
           push_history \<lparr>review_id = randomUUID env, code = src, review = t,
                          timestamp = now_history env, accepted = False\<rparr> (reviewHistory (state a))"
proof -
  let ?a1 = "storeReview env src t (userLanguage lang a) a"
  have "snd (reviewCode env src lang a) = snd (learnFromReview (current_timestamp env) t ?a1)"
    using assms by (simp add: reviewCode_def split: prod.splits option.splits)
  then have "state (snd (reviewCode env src lang a)) = state ?a1"
    by (simp add: learnFromReview_state)
  then show ?thesis
    by (simp add: storeReview_history)
qed

lemma reviewCode_success:
  assumes "success (fst (reviewCode env src lang a))"
  shows "\<exists>t. ai_run env (review_prompt src lang a) = Some t \<and>
           fst (reviewCode env src lang a) = ReviewSuccess t (userLanguage lang a) (now_result env)"
  using assms by (auto simp: reviewCode_def split: option.splits prod.splits)

lemma run_reviews_length: "length (fst (run_reviews calls a)) = length calls"
  by (induction calls a rule: run_reviews.induct) (auto split: prod.splits)

lemma take_append_take: "take n (xs @ take n ys) = take n (xs @ ys)"
  by (simp add: min_def)

text \<open>
  From any agent whose history holds at most 10 entries, a run of successful reviews
  leaves the 10 newest entries, the newest first.
\<close>

lemma run_reviews_history:
  assumes "list_all success (fst (run_reviews calls a))"
    and "length (reviewHistory (state a)) \<le> 10"
  shows "reviewHistory (state (snd (run_reviews calls a))) =
           take 10 (rev (map2 history_entry calls (fst (run_reviews calls a))) @ reviewHistory (state a))"
  using assms
proof (induction calls a rule: run_reviews.induct)
  case (1 a)
  then show ?case by simp
next
  case (2 env src lang calls a)
  obtain r a' where step: "reviewCode env src lang a = (r, a')"
    by (cases "reviewCode env src lang a")
  obtain rs a'' where rest: "run_reviews calls a' = (rs, a'')"
    by (cases "run_reviews calls a'")
  have ok: "success r" "list_all success rs"
    using "2.prems"(1) step rest by simp_all
  obtain g where gen: "ai_run env (review_prompt src lang a) = Some g"
      "r = ReviewSuccess g (userLanguage lang a) (now_result env)"
    using reviewCode_success [of env src lang a] ok(1) step by auto
  have h': "reviewHistory (state a') =
      take 10 (history_entry (env, src, lang) r # reviewHistory (state a))"
    using reviewCode_history_generated [OF gen(1)] step gen(2) "2.prems"(2)
    by (simp add: push_history_take)
  then have len: "length (reviewHistory (state a')) \<le> 10"
    by simp
  have "reviewHistory (state a'') =
      take 10 (rev (map2 history_entry calls rs) @ reviewHistory (state a'))"
    using "2.IH" [OF step [symmetric]] ok(2) len rest by simp
  also have "\<dots> = take 10 (rev (map2 history_entry calls rs) @
      history_entry (env, src, lang) r # reviewHistory (state a))"
    unfolding h' by (rule take_append_take)
  finally show ?case
    using step rest by simp
qed

lemma sample_review:
  "reviewCode (sample_env u ''Looks good'') src lang a =
     (ReviewSuccess ''Looks good'' (userLanguage lang a) 102,
      storeReview (sample_env u ''Looks good'') src ''Looks good'' (userLanguage lang a) a)"
  by (simp add: reviewCode_def sample_env_def learnFromReview_no_match issuePatterns_Looks_good)

text \<open>The sample agent is the initial agent after one successful review.\<close>

lemma sample_agent_reachable:
  "reviewCode (sample_env ''id-1'' ''Looks good'') ''def f(): pass'' (Some ''python'') initial_agent
     = (ReviewSuccess ''Looks good'' ''python'' 102, sample_agent)"
  unfolding sample_review
  by (simp add: storeReview_def sample_env_def sample_agent_def initial_agent_def
      initialState_def onStart_def userLanguage_def push_history_def countIssues_Looks_good)

lemma sample_reviews_succeed:
  "\<forall>c \<in> set calls. \<exists>u. fst c = sample_env u ''Looks good'' \<Longrightarrow>
   list_all success (fst (run_reviews calls a))"
proof (induction calls a rule: run_reviews.induct)
  case (1 a)
  then show ?case by simp
next
  case (2 env src lang calls a)
  then obtain u where u: "env = sample_env u ''Looks good''"
    by auto
  show ?case
    using 2 by (auto simp: u sample_review split: prod.splits)
qed

lemma entry_ids:
  "length rs = length calls \<Longrightarrow>
   map review_id (map2 history_entry calls rs) = map (\<lambda>c. randomUUID (fst c)) calls"
  by (induction rs calls rule: list_induct2) auto

lemma findIndex_Some_ex:
  "\<exists>x \<in> set xs. P x \<Longrightarrow> \<exists>i. findIndex P xs = Some i"
  using findIndex_None_iff [of P xs] by (cases "findIndex P xs") auto

lemma findIndex_id_ex:
  "k \<in> review_id ` set h \<Longrightarrow> \<exists>i. findIndex (\<lambda>r. review_id r = k) h = Some i"
  by (rule findIndex_Some_ex) auto

lemma update_accepted_ids:
  "map review_id (h[i := (h ! i)\<lparr>accepted := b\<rparr>]) = map review_id h"
proof (cases "i < length h")
  case True
  then show ?thesis by (simp add: map_update list_update_same_conv)
next
  case False
  then have "h[i := (h ! i)\<lparr>accepted := b\<rparr>] = h"
    by (intro list_update_beyond) simp
  then show ?thesis by simp
qed

lemma provideFeedback_found:
  assumes "findIndex (\<lambda>r. review_id r = reviewId) (reviewHistory (state a)) = Some i"
  shows "state (snd (provideFeedback now reviewId b c a)) =
           (state a)\<lparr>reviewHistory :=
              (reviewHistory (state a))[i := (reviewHistory (state a) ! i)\<lparr>accepted := b\<rparr>]\<rparr>"
    and "review_patterns (sql (snd (provideFeedback now reviewId b c a))) =
           (if \<not> b \<and> c \<noteq> None \<and> c \<noteq> Some []
            then insert_pattern now ''user_preference'' (the c) (Some ''negative'') (review_patterns (sql a))
            else review_patterns (sql a))"
    and "code_snippets (sql (snd (provideFeedback now reviewId b c a))) = code_snippets (sql a)"
  using assms by (simp_all add: provideFeedback_def Let_def)

lemma provideFeedback_ids:
  "map review_id (reviewHistory (state (snd (provideFeedback now reviewId b c a)))) =
   map review_id (reviewHistory (state a))"
proof (cases "findIndex (\<lambda>r. review_id r = reviewId) (reviewHistory (state a))")
  case None
  then show ?thesis by (simp add: provideFeedback_def)
next
  case (Some i)
  show ?thesis
    unfolding provideFeedback_found(1) [OF Some] by (simp add: update_accepted_ids)
qed

lemma issuePatterns_docstring:
  "issuePatterns ''Issue: missing docstring.'' = [''Issue: missing docstring'']"
  by code_simp

lemma countIssues_docstring: "countIssues ''Issue: missing docstring.'' = 1"
  by code_simp

lemma issuePatterns_shape:
  "p \<in> set (issuePatterns t) \<Longrightarrow> prefix ''Issue:'' p \<and> CHR ''.'' \<notin> set p \<and> 6 < length p"
proof (induction t rule: issuePatterns.induct)
  case 1
  then show ?case by (simp add: issuePatterns.simps)
next
  case (2 c cs)
  let ?body = "takeWhile (\<lambda>x. x \<noteq> CHR ''.'') (drop 6 (c # cs))"
  show ?case
  proof (cases "prefix ''Issue:'' (c # cs) \<and> ?body \<noteq> []")
    case True
    have "issuePatterns (c # cs) =
        (''Issue:'' @ ?body) # issuePatterns (dropWhile (\<lambda>x. x \<noteq> CHR ''.'') (drop 6 (c # cs)))"
      by (subst issuePatterns.simps(2), rule if_P, rule True)
    then have "p = ''Issue:'' @ ?body \<or>
        p \<in> set (issuePatterns (dropWhile (\<lambda>x. x \<noteq> CHR ''.'') (drop 6 (c # cs))))"
      using "2.prems" by (simp del: drop_Suc_Cons)
    then show ?thesis
    proof
      assume p: "p = ''Issue:'' @ ?body"
      have "CHR ''.'' \<notin> set ?body"
        by (auto dest: set_takeWhileD)
      moreover have "0 < length ?body"
        using True by simp
      ultimately show ?thesis
        unfolding p by simp
    next
      assume "p \<in> set (issuePatterns (dropWhile (\<lambda>x. x \<noteq> CHR ''.'') (drop 6 (c # cs))))"
      then show ?thesis
        using "2.IH"(1) True by simp
    qed
  next
    case False
    have "issuePatterns (c # cs) = issuePatterns cs"
      by (subst issuePatterns.simps(2), rule if_not_P, rule False)
    then have "p \<in> set (issuePatterns cs)"
      using "2.prems" by simp
    then show ?thesis
      using "2.IH"(2) False by simp
  qed
qed

lemma insert_on_conflict_patterns:
  "insert_on_conflict_pattern uniq now p rows = Inr rows' \<Longrightarrow>
   pattern ` set rows' \<subseteq> insert p (pattern ` set rows)"
  by (auto simp: insert_on_conflict_pattern_def insert_pattern_def split: if_splits)

lemma upsert_all_patterns:
  "pattern ` set (snd (upsert_all uniq now ps rows)) \<subseteq> pattern ` set rows \<union> set ps"
proof (induction ps arbitrary: rows)
  case Nil
  then show ?case by simp
next
  case (Cons p ps)
  show ?case
  proof (cases "insert_on_conflict_pattern uniq now p rows")
    case (Inl e)
    then show ?thesis by auto
  next
    case (Inr rows')
    have "pattern ` set (snd (upsert_all uniq now ps rows')) \<subseteq> pattern ` set rows' \<union> set ps"
      by (rule Cons.IH)
    then show ?thesis
      using insert_on_conflict_patterns [OF Inr] Inr by auto
  qed
qed

lemma sublist_skip: "sublist xs zs \<Longrightarrow> sublist xs (ys @ zs)"
  by (meson sublist_append_leftI sublist_order.order.trans)

lemma sublist_array_join:
  "x \<in> set xs \<Longrightarrow> sublist x (array_join sep xs)"
proof (induction sep xs rule: array_join.induct)
  case (1 sep)
  then show ?case by simp
next
  case (2 sep y)
  then show ?case by simp
next
  case (3 sep y z zs)
  show ?case
  proof (cases "x = y")
    case True
    then show ?thesis by simp
  next
    case False
    then have "sublist x (array_join sep (z # zs))"
      using 3 by simp
    then have "sublist x ((y @ sep) @ array_join sep (z # zs))"
      by (meson sublist_append_leftI sublist_order.order.trans)
    then show ?thesis by simp
  qed
qed

lemma sublist_prompt:
  assumes "r \<in> set ps"
  shows "sublist (pattern r) (buildReviewPrompt st src lang ps)"
proof -
  have "sublist (pattern r) (array_join '', '' (map pattern ps))"
    using assms by (intro sublist_array_join) simp
  moreover have "sublist (array_join '', '' (map pattern ps)) (common_issues_clause ps)"
  proof -
    have "common_issues_clause ps =
        (nl @ ''Common issues to check: '') @ array_join '', '' (map pattern ps)"
      using assms by (auto simp: common_issues_clause_def)
    then show ?thesis
      by (simp only: sublist_append_leftI)
  qed
  moreover have "sublist (common_issues_clause ps) (buildReviewPrompt st src lang ps)"
    unfolding buildReviewPrompt_def
    by (simp only: sublist_skip sublist_append_rightI)
  ultimately show ?thesis
    by (meson sublist_order.order.trans)
qed


lemma keyword_occurrences_Nil: "keyword_occurrences [] = 0"
  by (simp add: keyword_occurrences_def issue_keywords_def)

lemma keyword_occurrences_Cons:
  "keyword_occurrences (c # cs) = hits (c # cs) + keyword_occurrences cs"
  unfolding keyword_occurrences_def hits_def issue_keywords_def
  by (simp del: occurrences_of.simps add: occurrences_of.simps(2) [of _ c cs])

lemma matches_at_head:
  "matches_at kw (c # cs) \<Longrightarrow> kw \<noteq> [] \<Longrightarrow> hd kw = ascii_lower c"
  by (cases kw) (auto simp: matches_at_def)

lemma keyword_cases:
  "kw \<in> set issue_keywords \<Longrightarrow>
   kw = ''issue'' \<or> kw = ''problem'' \<or> kw = ''error'' \<or> kw = ''warning'' \<or> kw = ''concern''"
  by (simp add: issue_keywords_def)

lemma keyword_head:
  "kw \<in> set issue_keywords \<Longrightarrow>
   kw = (if hd kw = CHR ''i'' then ''issue'' else if hd kw = CHR ''p'' then ''problem''
         else if hd kw = CHR ''e'' then ''error'' else if hd kw = CHR ''w'' then ''warning''
         else ''concern'')"
  by (drule keyword_cases) (elim disjE; simp)

lemma one_keyword:
  assumes "matches_at kw s" "matches_at kw' s" "kw \<in> set issue_keywords" "kw' \<in> set issue_keywords"
  shows "kw = kw'"
proof (cases s)
  case Nil
  have "kw \<noteq> []"
    using keyword_cases [OF assms(3)] by auto
  then show ?thesis
    using assms(1) by (simp add: matches_at_def Nil)
next
  case (Cons c cs)
  have "kw \<noteq> []" "kw' \<noteq> []"
    using keyword_cases [OF assms(3)] keyword_cases [OF assms(4)] by auto
  then have "hd kw = hd kw'"
    using assms(1,2) matches_at_head unfolding Cons by metis
  then show ?thesis
    using keyword_head [OF assms(3)] keyword_head [OF assms(4)] by metis
qed

lemma hits_find:
  "hits s = (case find (\<lambda>kw. matches_at kw s) issue_keywords of None \<Rightarrow> 0 | Some kw \<Rightarrow> 1)"
proof (cases "find (\<lambda>kw. matches_at kw s) issue_keywords")
  case None
  then have "filter (\<lambda>kw. matches_at kw s) issue_keywords = []"
    by (auto simp: find_None_iff filter_empty_conv)
  then show ?thesis
    using None by (simp add: hits_def)
next
  case (Some kw)
  then have kw: "kw \<in> set issue_keywords" "matches_at kw s"
    by (auto simp: find_Some_iff)
  have "filter (\<lambda>k. matches_at k s) issue_keywords = filter (\<lambda>k. k = kw) issue_keywords"
    by (rule filter_cong [OF refl]) (use kw one_keyword in blast)
  also have "length \<dots> = 1"
    using kw(1) by (auto simp: issue_keywords_def)
  finally show ?thesis
    using Some by (simp add: hits_def)
qed

lemma matches_at_lower:
  "matches_at kw (drop j s) = (take (length kw) (drop j (map ascii_lower s)) = kw)"
  by (simp add: matches_at_def take_map drop_map)

lemma sublist_Cons_rightI: "sublist xs ys \<Longrightarrow> sublist xs (y # ys)"
  by (simp add: sublist_Cons_right)

text \<open>Inside a matched keyword no keyword begins, unless the text reads \<open>issuerror\<close>.\<close>

lemma no_inner_match_lower:
  assumes "kw \<in> set issue_keywords" and "take (length kw) u = kw"
    and "\<not> prefix ''issuerror'' u"
    and "0 < j" and "j < length kw" and "kw' \<in> set issue_keywords"
  shows "take (length kw') (drop j u) \<noteq> kw'"
proof -
  obtain v where u: "u = kw @ v"
    using assms(2) by (metis append_take_drop_id)
  have pre: "take n v = ''rror'' \<Longrightarrow> prefix ''rror'' v" for n
    by (metis take_is_prefix)
  consider (1) "kw = ''issue''" | (2) "kw = ''problem''" | (3) "kw = ''error''"
    | (4) "kw = ''warning''" | (5) "kw = ''concern''"
    using keyword_cases [OF assms(1)] by (elim disjE)
  then show ?thesis
  proof cases
    case 1
    then have "j = 1 \<or> j = 2 \<or> j = 3 \<or> j = 4"
      using assms(4,5) by auto
    then show ?thesis
      using assms(3,6) pre unfolding u 1 issue_keywords_def by auto
  next
    case 2
    then have "j = 1 \<or> j = 2 \<or> j = 3 \<or> j = 4 \<or> j = 5 \<or> j = 6"
      using assms(4,5) by auto
    then show ?thesis
      using assms(6) unfolding u 2 issue_keywords_def by auto
  next
    case 3
    then have "j = 1 \<or> j = 2 \<or> j = 3 \<or> j = 4"
      using assms(4,5) by auto
    then show ?thesis
      using assms(6) unfolding u 3 issue_keywords_def by auto
  next
    case 4
    then have "j = 1 \<or> j = 2 \<or> j = 3 \<or> j = 4 \<or> j = 5 \<or> j = 6"
      using assms(4,5) by auto
    then show ?thesis
      using assms(6) unfolding u 4 issue_keywords_def by auto
  next
    case 5
    then have "j = 1 \<or> j = 2 \<or> j = 3 \<or> j = 4 \<or> j = 5 \<or> j = 6"
      using assms(4,5) by auto
    then show ?thesis
      using assms(6) unfolding u 5 issue_keywords_def by auto
  qed
qed


lemma occurrences_of_drop:
  "\<forall>i<n. \<not> matches_at kw (drop i s) \<Longrightarrow> occurrences_of kw (drop n s) = occurrences_of kw s"
proof (induction n arbitrary: s)
  case 0
  then show ?case by simp
next
  case (Suc n)
  show ?case
  proof (cases s)
    case Nil
    then show ?thesis by simp
  next
    case (Cons c cs)
    have "\<not> matches_at kw (drop 0 s)"
      using Suc.prems by blast
    then have head: "\<not> matches_at kw (c # cs)"
      by (simp add: Cons)
    have "\<forall>i<n. \<not> matches_at kw (drop i cs)"
    proof (intro allI impI)
      fix i assume "i < n"
      then have "\<not> matches_at kw (drop (Suc i) s)"
        using Suc.prems by simp
      then show "\<not> matches_at kw (drop i cs)"
        by (simp add: Cons)
    qed
    then have "occurrences_of kw (drop n cs) = occurrences_of kw cs"
      by (rule Suc.IH)
    then show ?thesis
      using head by (simp add: Cons)
  qed
qed

lemma keyword_occurrences_drop:
  assumes "\<forall>i<n. \<forall>k \<in> set issue_keywords. \<not> matches_at k (drop i s)"
  shows "keyword_occurrences (drop n s) = keyword_occurrences s"
proof -
  have "map (\<lambda>k. occurrences_of k (drop n s)) issue_keywords =
      map (\<lambda>k. occurrences_of k s) issue_keywords"
    by (rule map_cong [OF refl]) (use assms occurrences_of_drop in blast)
  then show ?thesis
    by (simp only: keyword_occurrences_def)
qed

lemma keyword_length: "k \<in> set issue_keywords \<Longrightarrow> 0 < length k"
  by (drule keyword_cases) auto

lemma countIssues_refines:
  "\<not> sublist ''issuerror'' (map ascii_lower s) \<Longrightarrow> countIssues s = keyword_occurrences s"
proof (induction s rule: countIssues.induct)
  case 1
  show ?case
    by (simp add: countIssues.simps(1) keyword_occurrences_Nil)
next
  case (2 c cs)
  let ?u = "map ascii_lower (c # cs)"
  show ?case
  proof (cases "find (\<lambda>kw. matches_at kw (c # cs)) issue_keywords")
    case None
    have "\<not> sublist ''issuerror'' (map ascii_lower cs)"
      using "2.prems" by (simp add: sublist_Cons_right)
    then have "countIssues cs = keyword_occurrences cs"
      using "2.IH"(1) None by blast
    then show ?thesis
      using None by (simp add: countIssues.simps(2) keyword_occurrences_Cons hits_find)
  next
    case (Some kw)
    then have kw: "kw \<in> set issue_keywords" "matches_at kw (c # cs)"
      by (auto simp: find_Some_iff)
    have len: "0 < length kw"
      using kw(1) by (rule keyword_length)
    have rest: "drop (length kw) (c # cs) = drop (length kw - 1) cs"
      using len by (cases "length kw") simp_all
    have "sublist (map ascii_lower (drop (length kw) (c # cs))) ?u"
      unfolding drop_map [symmetric] by (rule sublist_drop)
    then have "\<not> sublist ''issuerror'' (map ascii_lower (drop (length kw) (c # cs)))"
      using "2.prems" by (meson sublist_order.order.trans)
    then have ih: "countIssues (drop (length kw) (c # cs)) =
        keyword_occurrences (drop (length kw) (c # cs))"
      using "2.IH"(2) Some by blast
    have take: "take (length kw) ?u = kw"
      using kw(2) unfolding matches_at_def by (simp only: take_map)
    have nopre: "\<not> prefix ''issuerror'' ?u"
      using "2.prems" prefix_imp_sublist by blast
    have "\<forall>i<length kw - 1. \<forall>k \<in> set issue_keywords. \<not> matches_at k (drop i cs)"
    proof (intro allI impI ballI)
      fix i k assume i: "i < length kw - 1" and k: "k \<in> set issue_keywords"
      have "take (length k) (drop (Suc i) ?u) \<noteq> k"
        by (rule no_inner_match_lower [OF kw(1) take nopre _ _ k]) (use i in simp_all)
      then have "\<not> matches_at k (drop (Suc i) (c # cs))"
        unfolding matches_at_lower by simp
      then show "\<not> matches_at k (drop i cs)"
        by simp
    qed
    then have "keyword_occurrences (drop (length kw - 1) cs) = keyword_occurrences cs"
      by (rule keyword_occurrences_drop)
    then show ?thesis
      using Some ih rest by (simp add: countIssues.simps(2) keyword_occurrences_Cons hits_find)
  qed
qed

lemma occurrences_of_drop_le: "occurrences_of kw (drop n s) \<le> occurrences_of kw s"
proof (induction n arbitrary: s)
  case 0
  then show ?case by simp
next
  case (Suc n)
  show ?case
  proof (cases s)
    case Nil
    then show ?thesis by simp
  next
    case (Cons c cs)
    have "occurrences_of kw (drop n cs) \<le> occurrences_of kw cs"
      by (rule Suc.IH)
    then show ?thesis
      by (simp add: Cons)
  qed
qed

lemma keyword_occurrences_drop_le: "keyword_occurrences (drop n s) \<le> keyword_occurrences s"
  unfolding keyword_occurrences_def
  by (rule sum_list_mono) (rule occurrences_of_drop_le)

lemma countIssues_le: "countIssues s \<le> keyword_occurrences s"
proof (induction s rule: countIssues.induct)
  case 1
  show ?case
    by (simp add: countIssues.simps(1))
next
  case (2 c cs)
  show ?case
  proof (cases "find (\<lambda>kw. matches_at kw (c # cs)) issue_keywords")
    case None
    then have "countIssues cs \<le> keyword_occurrences cs"
      using "2.IH"(1) by blast
    then show ?thesis
      using None by (simp add: countIssues.simps(2) keyword_occurrences_Cons hits_find)
  next
    case (Some kw)
    then have kw: "kw \<in> set issue_keywords"
      by (auto simp: find_Some_iff)
    have rest: "drop (length kw) (c # cs) = drop (length kw - 1) cs"
      using keyword_length [OF kw] by (cases "length kw") simp_all
    have "countIssues (drop (length kw) (c # cs)) \<le> keyword_occurrences (drop (length kw) (c # cs))"
      using "2.IH"(2) Some by blast
    also have "\<dots> \<le> keyword_occurrences cs"
      unfolding rest by (rule keyword_occurrences_drop_le)
    finally show ?thesis
      using Some by (simp add: countIssues.simps(2) keyword_occurrences_Cons hits_find)
  qed
qed

lemma reviewCode_snippet_generated:
  assumes "ai_run env (review_prompt src lang a) = Some t"
  shows "code_snippets (sql (snd (reviewCode env src lang a))) =
           code_snippets (sql a) @
             [\<lparr>snippet_id = Suc (length (code_snippets (sql a))), snippet_code = src,
               snippet_language = userLanguage lang a, snippet_review = t,
               issues_found = countIssues t, snippet_timestamp = now_snippet env,
               helpful = None\<rparr>]"
proof -
  let ?a1 = "storeReview env src t (userLanguage lang a) a"
  have "snd (reviewCode env src lang a) = snd (learnFromReview (current_timestamp env) t ?a1)"
    using assms by (simp add: reviewCode_def split: prod.splits option.splits)
  then have "code_snippets (sql (snd (reviewCode env src lang a))) = code_snippets (sql ?a1)"
    by (simp add: learnFromReview_snippets)
  then show ?thesis
    by (simp add: storeReview_def)
qed

lemma countIssues_two_issues: "countIssues two_issues = 2"
  unfolding two_issues_def by code_simp

lemma countIssues_two_findings: "countIssues two_findings = 2"
  unfolding two_findings_def by code_simp

lemma issuePatterns_two_findings: "issuePatterns two_findings = []"
  unfolding two_findings_def by code_simp

lemma issuePatterns_issuerror: "issuePatterns ''issuerror'' = []"
  by code_simp

lemma countIssues_issuerror: "countIssues ''issuerror'' = 1"
  by code_simp

lemma keyword_occurrences_issuerror: "keyword_occurrences ''issuerror'' = 2"
  by (simp add: keyword_occurrences_def issue_keywords_def matches_at_def ascii_lower_def)

lemma two_findings_no_overlap: "\<not> sublist ''issuerror'' (map ascii_lower two_findings)"
  unfolding two_findings_def by code_simp



text \<open>The \<open>SELECT\<close> of \<open>reviewCode\<close> returns no row of another type.\<close>

lemma select_top5_other_type:
  "\<forall>r \<in> set rows. pattern_type r \<noteq> t \<Longrightarrow> select_top5 t rows = []"
  by (simp add: select_top5_def filter_empty_conv)

section \<open>The claims\<close>

text \<open>
  C1. The bounded history: after any sequence of N successful \<open>reviewCode\<close> calls from the
  initial state, \<open>reviewHistory\<close> holds the entries of the last \<open>min N 10\<close> calls, the
  newest first: the entries of the oldest \<open>N - 10\<close> calls are gone, the others are in
  reverse order of the calls.
\<close>

theorem bounded_history:
  assumes "list_all success (fst (run_reviews calls initial_agent))"
  shows "reviewHistory (state (snd (run_reviews calls initial_agent))) =
           rev (drop (length calls - 10)
             (map2 history_entry calls (fst (run_reviews calls initial_agent)))) \<and>
         length (reviewHistory (state (snd (run_reviews calls initial_agent)))) =
           min (length calls) 10"
proof -
  let ?es = "map2 history_entry calls (fst (run_reviews calls initial_agent))"
  have len: "length ?es = length calls"
    by (simp add: run_reviews_length)
  have "reviewHistory (state (snd (run_reviews calls initial_agent))) = take 10 (rev ?es)"
    using run_reviews_history [OF assms] by (simp add: initial_agent_def initialState_def)
  also have "\<dots> = rev (drop (length calls - 10) ?es)"
    using len by (simp add: take_rev)
  finally have "reviewHistory (state (snd (run_reviews calls initial_agent))) =
      rev (drop (length calls - 10) ?es)" .
  then show ?thesis
    using len by (simp add: min_def)
qed

theorem bounded_history_witness:
  "list_all success (fst (run_reviews sample_calls initial_agent)) \<and>
   length sample_calls = 11 \<and>
   map review_id (reviewHistory (state (snd (run_reviews sample_calls initial_agent)))) =
     [''id-11'', ''id-10'', ''id-9'', ''id-8'', ''id-7'', ''id-6'', ''id-5'', ''id-4'',
      ''id-3'', ''id-2''] \<and>
   length (reviewHistory (state (snd (run_reviews sample_calls initial_agent)))) = 10"
proof -
  let ?es = "map2 history_entry sample_calls (fst (run_reviews sample_calls initial_agent))"
  have h: "list_all success (fst (run_reviews sample_calls initial_agent))"
    by (rule sample_reviews_succeed) (auto simp: sample_calls_def)
  have n: "length sample_calls = 11"
    by (simp add: sample_calls_def)
  have "map review_id ?es = map (\<lambda>c. randomUUID (fst c)) sample_calls"
    by (rule entry_ids) (rule run_reviews_length)
  then have ids: "map review_id ?es =
     [''id-1'', ''id-2'', ''id-3'', ''id-4'', ''id-5'', ''id-6'', ''id-7'', ''id-8'',
      ''id-9'', ''id-10'', ''id-11'']"
    by (simp add: sample_calls_def sample_env_def)
  have hist: "reviewHistory (state (snd (run_reviews sample_calls initial_agent))) =
      rev (drop (length sample_calls - 10) ?es)"
    using bounded_history [OF h] by (rule conjunct1)
  have len: "length (reviewHistory (state (snd (run_reviews sample_calls initial_agent)))) =
      min (length sample_calls) 10"
    using bounded_history [OF h] by (rule conjunct2)
  have "map review_id (reviewHistory (state (snd (run_reviews sample_calls initial_agent)))) =
      rev (drop 1 (map review_id ?es))"
    unfolding hist n by (simp only: rev_map drop_map) simp
  then have ids': "map review_id (reviewHistory (state (snd (run_reviews sample_calls initial_agent)))) =
     [''id-11'', ''id-10'', ''id-9'', ''id-8'', ''id-7'', ''id-6'', ''id-5'', ''id-4'',
      ''id-3'', ''id-2'']"
    unfolding ids by simp
  have len': "length (reviewHistory (state (snd (run_reviews sample_calls initial_agent)))) = 10"
    unfolding len n by simp
  show ?thesis
    using h n ids' len' by blast
qed


text \<open>
  C3 (the code departs from it). On the table that \<open>onStart\<close> creates, the statement of
  \<open>learnFromReview\<close> names a conflict target without a uniqueness constraint and is
  rejected: learning \<open>Issue: missing docstring.\<close> stores no row, the first time and the
  second time.
\<close>

theorem learnFromReview_upsert_rejected:
  "learnFromReview 103 ''Issue: missing docstring.'' initial_agent =
     (Some NoMatchingConstraint, initial_agent) \<and>
   review_patterns (sql (snd (learnFromReview 104 ''Issue: missing docstring.''
     (snd (learnFromReview 103 ''Issue: missing docstring.'' initial_agent))))) = []"
  by (simp add: learnFromReview_def issuePatterns_docstring insert_on_conflict_pattern_def
      review_patterns_unique_def initial_agent_def onStart_def)

text \<open>
  C4 (the code departs from it). The \<open>try\<close> block also holds \<open>storeReview\<close> and
  \<open>learnFromReview\<close>. With the generated text \<open>Issue: missing docstring.\<close> the snippet
  row and the history entry are written, then the statement of \<open>learnFromReview\<close> is
  rejected, and the call answers \<open>success: false\<close> with both writes in place.
\<close>

theorem reviewCode_failure_after_store:
  "fst (reviewCode (sample_env ''id-1'' ''Issue: missing docstring.'') ''def f(): pass''
         (Some ''python'') initial_agent) = ReviewFailure ''Failed to generate review'' 102 \<and>
   code_snippets (sql (snd (reviewCode (sample_env ''id-1'' ''Issue: missing docstring.'')
         ''def f(): pass'' (Some ''python'') initial_agent))) =
     [\<lparr>snippet_id = 1, snippet_code = ''def f(): pass'', snippet_language = ''python'',
       snippet_review = ''Issue: missing docstring.'', issues_found = 1,
       snippet_timestamp = 100, helpful = None\<rparr>] \<and>
   reviewHistory (state (snd (reviewCode (sample_env ''id-1'' ''Issue: missing docstring.'')
         ''def f(): pass'' (Some ''python'') initial_agent))) =
     [\<lparr>review_id = ''id-1'', code = ''def f(): pass'', review = ''Issue: missing docstring.'',
       timestamp = 101, accepted = False\<rparr>]"
  by (simp add: reviewCode_def sample_env_def learnFromReview_def issuePatterns_docstring
      insert_on_conflict_pattern_def review_patterns_unique_def storeReview_def
      countIssues_docstring push_history_def initial_agent_def initialState_def onStart_def
      userLanguage_def)

text \<open>
  C5. \<open>provideFeedback\<close> for a \<open>reviewId\<close> that does not occur in the current history
  returns \<open>{ success: true }\<close> and leaves the whole agent as it was: history, preferences,
  \<open>review_patterns\<close> and \<open>code_snippets\<close>.
\<close>

theorem provideFeedback_unknown_id_noop:
  assumes "reviewId \<notin> review_id ` set (reviewHistory (state a))"
  shows "provideFeedback now reviewId helpfulness comments a = (True, a)"
proof -
  have "findIndex (\<lambda>r. review_id r = reviewId) (reviewHistory (state a)) = None"
    using assms by (auto simp: findIndex_None_iff)
  then show ?thesis
    by (simp add: provideFeedback_def)
qed

theorem provideFeedback_unknown_id_noop_witness:
  "''id-2'' \<notin> review_id ` set (reviewHistory (state sample_agent)) \<and>
   provideFeedback 200 ''id-2'' False (Some ''too verbose'') sample_agent = (True, sample_agent)"
proof -
  have h: "''id-2'' \<notin> review_id ` set (reviewHistory (state sample_agent))"
    by (simp add: sample_agent_def)
  show ?thesis
    using h provideFeedback_unknown_id_noop [OF h, of 200 False "Some ''too verbose''"] by simp
qed

text \<open>
  C6. \<open>updatePreferences\<close> merges the fields present in its argument into the current
  preferences and returns the result: a field that is absent keeps its value, a field that
  is present takes the new one, and the history, the pattern summary, the user id and the
  SQL storage are unchanged.
\<close>

theorem updatePreferences_shallow_merge:
  "(new_language q = None \<longrightarrow>
      language (preferences (state (snd (updatePreferences q a)))) = language (preferences (state a))) \<and>
   (new_styleGuide q = None \<longrightarrow>
      styleGuide (preferences (state (snd (updatePreferences q a)))) = styleGuide (preferences (state a))) \<and>
   (new_strictness q = None \<longrightarrow>
      strictness (preferences (state (snd (updatePreferences q a)))) = strictness (preferences (state a))) \<and>
   (new_focusAreas q = None \<longrightarrow>
      focusAreas (preferences (state (snd (updatePreferences q a)))) = focusAreas (preferences (state a))) \<and>
   (\<forall>v. new_language q = Some v \<longrightarrow>
      language (preferences (state (snd (updatePreferences q a)))) = v) \<and>
   (\<forall>v. new_styleGuide q = Some v \<longrightarrow>
      styleGuide (preferences (state (snd (updatePreferences q a)))) = v) \<and>
   (\<forall>v. new_strictness q = Some v \<longrightarrow>
      strictness (preferences (state (snd (updatePreferences q a)))) = v) \<and>
   (\<forall>v. new_focusAreas q = Some v \<longrightarrow>
      focusAreas (preferences (state (snd (updatePreferences q a)))) = v) \<and>
   fst (updatePreferences q a) = (True, preferences (state (snd (updatePreferences q a)))) \<and>
   reviewHistory (state (snd (updatePreferences q a))) = reviewHistory (state a) \<and>
   patterns (state (snd (updatePreferences q a))) = patterns (state a) \<and>
   userId (state (snd (updatePreferences q a))) = userId (state a) \<and>
   sql (snd (updatePreferences q a)) = sql a"
  by (simp add: updatePreferences_def merge_preferences_def Let_def)

theorem updatePreferences_shallow_merge_witness:
  "new_language only_strict = None \<and> new_styleGuide only_strict = None \<and>
   new_strictness only_strict = Some strict \<and> new_focusAreas only_strict = None \<and>
   language (preferences (state (snd (updatePreferences only_strict sample_agent)))) = ''python'' \<and>
   styleGuide (preferences (state (snd (updatePreferences only_strict sample_agent)))) = ''PEP8'' \<and>
   strictness (preferences (state (snd (updatePreferences only_strict sample_agent)))) = strict \<and>
   focusAreas (preferences (state (snd (updatePreferences only_strict sample_agent))))
     = [''readability'', ''performance'', ''security''] \<and>
   reviewHistory (state (snd (updatePreferences only_strict sample_agent)))
     = reviewHistory (state sample_agent) \<and>
   sql (snd (updatePreferences only_strict sample_agent)) = sql sample_agent"
  using updatePreferences_shallow_merge [of only_strict sample_agent]
  by (simp add: only_strict_def sample_agent_def initialState_def)

text \<open>
  C7 as stated fails: the insert sits inside the block guarded by \<open>reviewIndex !== -1\<close>,
  so negative feedback with a comment for an id that is not in the history inserts nothing.
\<close>

theorem provideFeedback_unknown_id_no_insert:
  "review_patterns (sql (snd (provideFeedback 200 ''id-9'' False (Some ''too verbose'') sample_agent))) = []"
  by (simp add: provideFeedback_def sample_agent_def initialState_def)

text \<open>
  C7, amended. For a \<open>reviewId\<close> that occurs in the history, \<open>provideFeedback\<close> with
  \<open>helpful = false\<close> and a non-empty comment appends one row of type \<open>user_preference\<close>
  with \<open>user_feedback = negative\<close>; the statement is a plain insert, so a second call with
  the same comment appends a second row with the same text.
\<close>

theorem provideFeedback_negative_comment_inserts:
  assumes "reviewId \<in> review_id ` set (reviewHistory (state a))" and "c \<noteq> []"
  shows "review_patterns (sql (snd (provideFeedback now reviewId False (Some c) a))) =
           review_patterns (sql a) @
             [\<lparr>pattern_id = Suc (length (review_patterns (sql a))), pattern_type = ''user_preference'',
               pattern = c, frequency = 1, last_seen = now, user_feedback = Some ''negative''\<rparr>] \<and>
         review_patterns (sql (snd (provideFeedback now' reviewId False (Some c)
             (snd (provideFeedback now reviewId False (Some c) a))))) =
           review_patterns (sql a) @
             [\<lparr>pattern_id = Suc (length (review_patterns (sql a))), pattern_type = ''user_preference'',
               pattern = c, frequency = 1, last_seen = now, user_feedback = Some ''negative''\<rparr>,
              \<lparr>pattern_id = Suc (Suc (length (review_patterns (sql a)))), pattern_type = ''user_preference'',
               pattern = c, frequency = 1, last_seen = now', user_feedback = Some ''negative''\<rparr>]"
proof -
  let ?a1 = "snd (provideFeedback now reviewId False (Some c) a)"
  obtain i where i: "findIndex (\<lambda>r. review_id r = reviewId) (reviewHistory (state a)) = Some i"
    using findIndex_id_ex [OF assms(1)] by auto
  have first: "review_patterns (sql ?a1) =
      insert_pattern now ''user_preference'' c (Some ''negative'') (review_patterns (sql a))"
    using provideFeedback_found(2) [OF i, of now False "Some c"] assms(2) by simp
  have "review_id ` set (reviewHistory (state ?a1)) = review_id ` set (reviewHistory (state a))"
    using provideFeedback_ids [of now reviewId False "Some c" a]
    by (metis set_map)
  then have "reviewId \<in> review_id ` set (reviewHistory (state ?a1))"
    using assms(1) by simp
  then obtain j where j: "findIndex (\<lambda>r. review_id r = reviewId) (reviewHistory (state ?a1)) = Some j"
    using findIndex_id_ex by blast
  have second: "review_patterns (sql (snd (provideFeedback now' reviewId False (Some c) ?a1))) =
      insert_pattern now' ''user_preference'' c (Some ''negative'') (review_patterns (sql ?a1))"
    using provideFeedback_found(2) [OF j, of now' False "Some c"] assms(2) by simp
  show ?thesis
    unfolding second first by (simp add: insert_pattern_def)
qed

theorem provideFeedback_negative_comment_inserts_witness:
  "''id-1'' \<in> review_id ` set (reviewHistory (state sample_agent)) \<and> ''too verbose'' \<noteq> [] \<and>
   map pattern (review_patterns (sql (snd (provideFeedback 201 ''id-1'' False (Some ''too verbose'')
      (snd (provideFeedback 200 ''id-1'' False (Some ''too verbose'') sample_agent))))))
     = [''too verbose'', ''too verbose'']"
proof -
  have h: "''id-1'' \<in> review_id ` set (reviewHistory (state sample_agent))"
    by (simp add: sample_agent_def)
  have c: "''too verbose'' \<noteq> []"
    by simp
  have r: "review_patterns (sql sample_agent) = []"
    by (simp add: sample_agent_def)
  show ?thesis
    using h provideFeedback_negative_comment_inserts [OF h c, where now = 200 and now' = 201]
    by (simp add: r)
qed

text \<open>
  C8 as stated fails: a global match resumes behind the matched text, so in \<open>issuerror\<close>
  the \<open>error\<close> that begins on the last letter of \<open>issue\<close> is passed over. The review
  succeeds, the stored count is 1, and the text holds 2 occurrences of the keywords.
\<close>

theorem issues_found_skips_overlapping_keyword:
  "fst (reviewCode (sample_env ''id-1'' ''issuerror'') ''def f(): pass'' None initial_agent) =
     ReviewSuccess ''issuerror'' ''python'' 102 \<and>
   map issues_found (code_snippets (sql (snd (reviewCode (sample_env ''id-1'' ''issuerror'')
     ''def f(): pass'' None initial_agent)))) = [1] \<and>
   keyword_occurrences ''issuerror'' = 2"
proof -
  have g: "ai_run (sample_env ''id-1'' ''issuerror'') (review_prompt ''def f(): pass'' None initial_agent) =
      Some ''issuerror''"
    by (simp add: sample_env_def)
  have "fst (reviewCode (sample_env ''id-1'' ''issuerror'') ''def f(): pass'' None initial_agent) =
      ReviewSuccess ''issuerror'' ''python'' 102"
    by (simp add: reviewCode_def sample_env_def learnFromReview_no_match issuePatterns_issuerror
        userLanguage_def initial_agent_def initialState_def)
  moreover have "map issues_found (code_snippets (sql (snd (reviewCode (sample_env ''id-1'' ''issuerror'')
      ''def f(): pass'' None initial_agent)))) = [1]"
    unfolding reviewCode_snippet_generated [OF g]
    by (simp add: countIssues_issuerror initial_agent_def onStart_def)
  ultimately show ?thesis
    using keyword_occurrences_issuerror by simp
qed

text \<open>
  C8, amended. Whenever the inference returns a text, the inserted snippet row carries
  \<open>issues_found = countIssues text\<close>, the number of matches of the global, case-insensitive
  pattern found from left to right without overlap. This number never exceeds the number of
  case-insensitive occurrences of the five keywords, and equals it for every text that
  does not contain \<open>issuerror\<close> (in any case). For
  \<open>Issue: missing docstring. Issue: no return type annotation.\<close> it is 2.
\<close>

theorem issues_found_counts_matches:
  "(\<forall>t. ai_run env (review_prompt src lang a) = Some t \<longrightarrow>
      code_snippets (sql (snd (reviewCode env src lang a))) =
        code_snippets (sql a) @
          [\<lparr>snippet_id = Suc (length (code_snippets (sql a))), snippet_code = src,
            snippet_language = userLanguage lang a, snippet_review = t,
            issues_found = countIssues t, snippet_timestamp = now_snippet env,
            helpful = None\<rparr>]) \<and>
   (\<not> sublist ''issuerror'' (map ascii_lower g) \<longrightarrow> countIssues g = keyword_occurrences g) \<and>
   countIssues g \<le> keyword_occurrences g \<and>
   countIssues two_issues = 2"
  using reviewCode_snippet_generated countIssues_refines countIssues_le countIssues_two_issues
  by blast

theorem issues_found_counts_matches_witness:
  "ai_run (sample_env ''id-2'' two_findings) (review_prompt ''x = 1'' None sample_agent) =
     Some two_findings \<and>
   \<not> sublist ''issuerror'' (map ascii_lower two_findings) \<and>
   success (fst (reviewCode (sample_env ''id-2'' two_findings) ''x = 1'' None sample_agent)) \<and>
   map issues_found (code_snippets (sql (snd (reviewCode (sample_env ''id-2'' two_findings)
     ''x = 1'' None sample_agent)))) = [0, 2] \<and>
   keyword_occurrences two_findings = 2"
proof -
  have g: "ai_run (sample_env ''id-2'' two_findings) (review_prompt ''x = 1'' None sample_agent) =
      Some two_findings"
    by (simp add: sample_env_def)
  have ok: "success (fst (reviewCode (sample_env ''id-2'' two_findings) ''x = 1'' None sample_agent))"
    by (simp add: reviewCode_def sample_env_def learnFromReview_no_match issuePatterns_two_findings)
  have old: "map issues_found (code_snippets (sql sample_agent)) = [0]"
    by (simp add: sample_agent_def)
  note main = issues_found_counts_matches [where env = "sample_env ''id-2'' two_findings"
      and src = "''x = 1''" and lang = None and a = sample_agent and g = two_findings]
  have snip: "code_snippets (sql (snd (reviewCode (sample_env ''id-2'' two_findings) ''x = 1'' None sample_agent))) =
        code_snippets (sql sample_agent) @
          [\<lparr>snippet_id = Suc (length (code_snippets (sql sample_agent))), snippet_code = ''x = 1'',
            snippet_language = userLanguage None sample_agent, snippet_review = two_findings,
            issues_found = countIssues two_findings,
            snippet_timestamp = now_snippet (sample_env ''id-2'' two_findings), helpful = None\<rparr>]"
    using main g by blast
  have eq: "countIssues two_findings = keyword_occurrences two_findings"
    using main two_findings_no_overlap by blast
  have "map issues_found (code_snippets (sql (snd (reviewCode (sample_env ''id-2'' two_findings)
     ''x = 1'' None sample_agent)))) = [0, 2]"
    unfolding snip by (simp add: old countIssues_two_findings)
  then show ?thesis
    using g ok two_findings_no_overlap eq countIssues_two_findings by simp
qed

text \<open>
  C9 as stated fails: \<open>storeReview\<close> creates the entry with \<open>accepted: false\<close>, a definite
  value of the declared type \<open>boolean\<close>, not an unset one.
\<close>

theorem reviewCode_creates_accepted_false:
  "accepted (hd (reviewHistory (state (snd (reviewCode (sample_env ''id-1'' ''Looks good'')
      ''def f(): pass'' (Some ''python'') initial_agent))))) = False"
  by (simp add: sample_agent_reachable sample_agent_def)

text \<open>
  C9, amended. \<open>reviewCode\<close> creates each entry with \<open>accepted = false\<close> at the head of the
  history and removes at most the last entry, when 10 are held; \<open>provideFeedback\<close> keeps
  the length, and each entry is either unchanged or is an entry with the given id whose
  \<open>accepted\<close> field alone was set; \<open>updatePreferences\<close> leaves the history as it is.
\<close>

theorem history_entries_change_only_by_feedback_and_eviction:
  "(ai_run env (review_prompt src lang a) = None \<longrightarrow>
      reviewHistory (state (snd (reviewCode env src lang a))) = reviewHistory (state a)) \<and>
   (\<forall>t. ai_run env (review_prompt src lang a) = Some t \<longrightarrow>
      reviewHistory (state (snd (reviewCode env src lang a))) =
        \<lparr>review_id = randomUUID env, code = src, review = t, timestamp = now_history env,
         accepted = False\<rparr> #
        (if 10 \<le> length (reviewHistory (state a)) then butlast (reviewHistory (state a))
         else reviewHistory (state a))) \<and>
   length (reviewHistory (state (snd (provideFeedback now reviewId b c a)))) =
     length (reviewHistory (state a)) \<and>
   (\<forall>i < length (reviewHistory (state a)).
      reviewHistory (state (snd (provideFeedback now reviewId b c a))) ! i =
        reviewHistory (state a) ! i \<or>
      review_id (reviewHistory (state a) ! i) = reviewId \<and>
      reviewHistory (state (snd (provideFeedback now reviewId b c a))) ! i =
        (reviewHistory (state a) ! i)\<lparr>accepted := b\<rparr>) \<and>
   reviewHistory (state (snd (updatePreferences q a))) = reviewHistory (state a)"
proof -
  have fail: "ai_run env (review_prompt src lang a) = None \<longrightarrow>
      reviewHistory (state (snd (reviewCode env src lang a))) = reviewHistory (state a)"
    by (simp add: reviewCode_inference_failed)
  have gen: "\<forall>t. ai_run env (review_prompt src lang a) = Some t \<longrightarrow>
      reviewHistory (state (snd (reviewCode env src lang a))) =
        \<lparr>review_id = randomUUID env, code = src, review = t, timestamp = now_history env,
         accepted = False\<rparr> #
        (if 10 \<le> length (reviewHistory (state a)) then butlast (reviewHistory (state a))
         else reviewHistory (state a))"
    by (simp add: reviewCode_history_generated push_history_eq)
  have fb: "length (reviewHistory (state (snd (provideFeedback now reviewId b c a)))) =
       length (reviewHistory (state a)) \<and>
     (\<forall>i < length (reviewHistory (state a)).
      reviewHistory (state (snd (provideFeedback now reviewId b c a))) ! i =
        reviewHistory (state a) ! i \<or>
      review_id (reviewHistory (state a) ! i) = reviewId \<and>
      reviewHistory (state (snd (provideFeedback now reviewId b c a))) ! i =
        (reviewHistory (state a) ! i)\<lparr>accepted := b\<rparr>)"
  proof (cases "findIndex (\<lambda>r. review_id r = reviewId) (reviewHistory (state a))")
    case None
    then show ?thesis by (simp add: provideFeedback_def)
  next
    case (Some j)
    have j: "j < length (reviewHistory (state a))" "review_id (reviewHistory (state a) ! j) = reviewId"
      using findIndex_Some_lt [OF Some] by simp_all
    show ?thesis
      unfolding provideFeedback_found(1) [OF Some] using j by (auto simp: nth_list_update)
  qed
  have up: "reviewHistory (state (snd (updatePreferences q a))) = reviewHistory (state a)"
    by (simp add: updatePreferences_def Let_def)
  show ?thesis
    using fail gen fb up by blast
qed

theorem history_entries_change_only_by_feedback_and_eviction_witness:
  "ai_run (sample_env ''id-2'' ''Looks good'') (review_prompt ''x = 1'' None sample_agent) = Some ''Looks good'' \<and>
   reviewHistory (state (snd (reviewCode (sample_env ''id-2'' ''Looks good'') ''x = 1'' None sample_agent))) =
     [\<lparr>review_id = ''id-2'', code = ''x = 1'', review = ''Looks good'', timestamp = 101, accepted = False\<rparr>,
      \<lparr>review_id = ''id-1'', code = ''def f(): pass'', review = ''Looks good'', timestamp = 101, accepted = False\<rparr>] \<and>
   0 < length (reviewHistory (state sample_agent)) \<and>
   reviewHistory (state (snd (provideFeedback 200 ''id-1'' True None sample_agent))) ! 0 =
     \<lparr>review_id = ''id-1'', code = ''def f(): pass'', review = ''Looks good'', timestamp = 101, accepted = True\<rparr>"
proof -
  have g: "ai_run (sample_env ''id-2'' ''Looks good'') (review_prompt ''x = 1'' None sample_agent) = Some ''Looks good''"
    by (simp add: sample_env_def)
  have h: "reviewHistory (state sample_agent) =
      [\<lparr>review_id = ''id-1'', code = ''def f(): pass'', review = ''Looks good'', timestamp = 101, accepted = False\<rparr>]"
    by (simp add: sample_agent_def)
  have f: "reviewHistory (state (snd (provideFeedback 200 ''id-1'' True None sample_agent))) ! 0 \<noteq>
      reviewHistory (state sample_agent) ! 0"
    by (simp add: provideFeedback_def sample_agent_def)
  show ?thesis
    using g f history_entries_change_only_by_feedback_and_eviction
      [of "sample_env ''id-2'' ''Looks good''" "''x = 1''" None sample_agent 200 "''id-1''" True None]
    by (simp add: h sample_env_def)
qed


end
